theory Spec2Isabelle
  imports Main "HOL-Library.AList" "HOL-Library.Multiset"
begin

section \<open>Python values\<close>

text \<open>
  A \<open>datetime.datetime\<close> object.  Its \<open>tzinfo\<close> is \<open>None\<close> or a time zone object,
  whose \<open>utcoffset\<close> is \<open>None\<close> or a whole number of minutes (Python 2 admits no other
  offset).
\<close>

datatype tzinfo = TZ (tz_utcoffset: "int option")

record datetime =
  year :: nat
  month :: nat
  day :: nat
  hour :: nat
  minute :: nat
  second :: nat
  microsecond :: nat
  tzinfo :: "tzinfo option"

text \<open>
  The values an entity attribute and a field of a record hold: \<open>None\<close>, a \<open>bool\<close>, an
  \<open>int\<close> or \<open>long\<close> (both unbounded here), a \<open>datetime\<close>, a \<open>str\<close> or \<open>unicode\<close>,
  a scalar of any other type (a \<open>float\<close>, say), which \<open>POther\<close> holds as the text that
  \<open>str()\<close> gives for it, and a list of dicts.  A dict is an association list with
  distinct keys, in the order in which the dict is iterated.
\<close>

datatype pyval =
    PNone
  | PBool bool
  | PInt int
  | PDateTime datetime
  | PStr string
  | POther string
  | PList "(string \<times> pyval) list list"

type_synonym pydict = "(string \<times> pyval) list"

datatype error =
    ValueError string
  | KeyError string
  | TypeError
  | External string

subsection \<open>\<open>datetime.isoformat\<close>\<close>

definition digit :: "nat \<Rightarrow> char" where
  "digit n = ''0123456789'' ! (n mod 10)"

text \<open>\<open>zpad w n\<close> is \<open>"%0wd" % n\<close> for \<open>n < 10 ^ w\<close>, which the fields of a datetime are.\<close>

fun zpad :: "nat \<Rightarrow> nat \<Rightarrow> string" where
  "zpad 0 n = []"
| "zpad (Suc w) n = zpad w (n div 10) @ [digit n]"

definition utcoffset :: "datetime \<Rightarrow> int option" where
  "utcoffset v = (case tzinfo v of None \<Rightarrow> None | Some tz \<Rightarrow> tz_utcoffset tz)"

definition format_utcoffset :: "int \<Rightarrow> string" where
  "format_utcoffset off =
     (if off < 0 then ''-'' else ''+'')
     @ zpad 2 (nat \<bar>off\<bar> div 60) @ '':'' @ zpad 2 (nat \<bar>off\<bar> mod 60)"

definition isoformat_naive :: "datetime \<Rightarrow> string" where
  "isoformat_naive v =
     zpad 4 (year v) @ ''-'' @ zpad 2 (month v) @ ''-'' @ zpad 2 (day v) @ ''T''
     @ zpad 2 (hour v) @ '':'' @ zpad 2 (minute v) @ '':'' @ zpad 2 (second v)
     @ (if microsecond v \<noteq> 0 then ''.'' @ zpad 6 (microsecond v) else [])"

definition isoformat :: "datetime \<Rightarrow> string" where
  "isoformat v =
     isoformat_naive v
     @ (case utcoffset v of None \<Rightarrow> [] | Some off \<Rightarrow> format_utcoffset off)"

section \<open>Entities\<close>

text \<open>
  The class variables that every entity class of \<open>icat/entities.py\<close> sets.  A frozenset
  is the list of its elements in iteration order.
\<close>

record entclass =
  BeanName :: string
  InstAttr :: "string list"
  InstRel :: "string list"
  InstMRel :: "string list"

text \<open>
  An entity object: its class, the values of its plain attributes, the targets of its
  to-one relations and the children of its to-many relations.  An object may hold a
  value under a name that its class does not declare.
\<close>

datatype entity =
  Entity (cls: entclass)
         (attrs: "(string \<times> pyval) list")
         (rels: "(string \<times> entity) list")
         (mrels: "(string \<times> entity list) list")

text \<open>\<open>getattr(obj, attr, None)\<close> on a plain attribute and on a to-one relation.\<close>

definition getattr_attr :: "entity \<Rightarrow> string \<Rightarrow> pyval" where
  "getattr_attr obj attr = (case map_of (attrs obj) attr of None \<Rightarrow> PNone | Some v \<Rightarrow> v)"

definition getattr_rel :: "entity \<Rightarrow> string \<Rightarrow> entity option" where
  "getattr_rel obj attr = map_of (rels obj) attr"

text \<open>
  Modelled from the spec: \<open>getattr(obj, attr)\<close> on a to-many relation.  The attribute
  access of the class \<open>icat.entity.Entity\<close> is not part of the sources at hand; by the
  data model a to-many relation is a collection of children, empty when nothing was
  added to it.
\<close>

definition getattr_mrel :: "entity \<Rightarrow> string \<Rightarrow> entity list" where
  "getattr_mrel obj attr = (case map_of (mrels obj) attr of None \<Rightarrow> [] | Some cs \<Rightarrow> cs)"

text \<open>
  What \<open>entity2dict\<close> takes from the class \<open>icat.entity.Entity\<close>, and from Python:
  \<open>getUniqueKey(autoget=False, keyindex=keyindex)\<close>, which may raise, the sort key
  \<open>__sortkey__\<close>, and \<open>str()\<close> of a list of dicts.
\<close>

record ('ki, 'sk) entity_env =
  getUniqueKey :: "entity \<Rightarrow> 'ki \<Rightarrow> error + string"
  sortkey :: "entity \<Rightarrow> 'sk"
  str_list :: "pydict list \<Rightarrow> string"

section \<open>The encoder \<open>entity2dict\<close>\<close>

text \<open>
  The body of the first loop for one value: \<open>None\<close> stands for \<open>continue\<close>.  A
  \<open>bool\<close> is tested before \<open>int\<close>, whose subclass it is.
\<close>

fun render :: "('ki, 'sk) entity_env \<Rightarrow> pyval \<Rightarrow> pyval option" where
  "render env PNone = None"
| "render env (PBool b) = Some (PBool b)"
| "render env (PInt i) = Some (PInt i)"
| "render env (PDateTime v) =
     (if tzinfo v \<noteq> None \<and> utcoffset v \<noteq> None
      then Some (PStr (isoformat v))
      else Some (PStr (isoformat v @ ''Z'')))"
| "render env (PStr s) = Some (PStr s)"
| "render env (POther r) = Some (PStr r)"
| "render env (PList l) = Some (PStr (str_list env l))"

fun attr_loop :: "('ki, 'sk) entity_env \<Rightarrow> entity \<Rightarrow> string list \<Rightarrow> pydict \<Rightarrow> pydict" where
  "attr_loop env obj [] d = d"
| "attr_loop env obj (attr # rest) d =
     (if attr = ''id'' then attr_loop env obj rest d
      else case render env (getattr_attr obj attr) of
             None \<Rightarrow> attr_loop env obj rest d
           | Some v \<Rightarrow> attr_loop env obj rest (AList.update attr v d))"

fun rel_loop ::
  "('ki, 'sk) entity_env \<Rightarrow> 'ki \<Rightarrow> entity \<Rightarrow> string list \<Rightarrow> pydict \<Rightarrow> error + pydict" where
  "rel_loop env keyindex obj [] d = Inr d"
| "rel_loop env keyindex obj (attr # rest) d =
     (case getattr_rel obj attr of
        None \<Rightarrow> rel_loop env keyindex obj rest d
      | Some o' \<Rightarrow>
          (case getUniqueKey env o' keyindex of
             Inl e \<Rightarrow> Inl e
           | Inr k \<Rightarrow> rel_loop env keyindex obj rest (AList.update attr (PStr k) d)))"

text \<open>The inner loop over the sorted children: the first child that fails ends it.\<close>

fun encode_children :: "(entity \<Rightarrow> error + pydict) \<Rightarrow> entity list \<Rightarrow> error + pydict list" where
  "encode_children enc [] = Inr []"
| "encode_children enc (c # cs) =
     (case enc c of
        Inl e \<Rightarrow> Inl e
      | Inr r \<Rightarrow> (case encode_children enc cs of Inl e \<Rightarrow> Inl e | Inr rs \<Rightarrow> Inr (r # rs)))"

fun mrel_loop ::
  "(entity \<Rightarrow> error + pydict) \<Rightarrow> (entity \<Rightarrow> 'sk::linorder) \<Rightarrow> entity \<Rightarrow> string list
   \<Rightarrow> pydict \<Rightarrow> error + pydict" where
  "mrel_loop enc key obj [] d = Inr d"
| "mrel_loop enc key obj (attr # rest) d =
     (if length (getattr_mrel obj attr) > 0
      then (case encode_children enc (sort_key key (getattr_mrel obj attr)) of
              Inl e \<Rightarrow> Inl e
            | Inr rs \<Rightarrow> mrel_loop enc key obj rest (AList.update attr (PList rs) d))
      else mrel_loop enc key obj rest d)"

lemma encode_children_cong [fundef_cong]:
  "cs = cs' \<Longrightarrow> (\<And>c. c \<in> set cs' \<Longrightarrow> enc c = enc' c)
   \<Longrightarrow> encode_children enc cs = encode_children enc' cs'"
  by (induction cs arbitrary: cs') (auto split: sum.splits)

lemma mrel_loop_cong [fundef_cong]:
  "obj = obj' \<Longrightarrow> as = as' \<Longrightarrow> d = d' \<Longrightarrow> key = key'
   \<Longrightarrow> (\<And>a c. a \<in> set as' \<Longrightarrow> c \<in> set (getattr_mrel obj' a) \<Longrightarrow> enc c = enc' c)
   \<Longrightarrow> mrel_loop enc key obj as d = mrel_loop enc' key' obj' as' d'"
proof (induction as arbitrary: as' d d')
  case Nil
  then show ?case by simp
next
  case (Cons a as)
  have "a \<in> set as'"
    using Cons.prems(2) by auto
  then have "\<And>c. c \<in> set (getattr_mrel obj' a) \<Longrightarrow> enc c = enc' c"
    by (rule Cons.prems(5))
  then have "encode_children enc (sort_key key' (getattr_mrel obj' a))
        = encode_children enc' (sort_key key' (getattr_mrel obj' a))"
    by (intro encode_children_cong) auto
  moreover have "\<And>b c. b \<in> set as \<Longrightarrow> c \<in> set (getattr_mrel obj' b) \<Longrightarrow> enc c = enc' c"
  proof -
    fix b c assume "b \<in> set as" and c: "c \<in> set (getattr_mrel obj' b)"
    then have "b \<in> set as'" using Cons.prems(2) by auto
    then show "enc c = enc' c" using c by (rule Cons.prems(5))
  qed
  then have "\<And>d. mrel_loop enc key obj as d = mrel_loop enc' key' obj' as d"
    using Cons.prems(1,4) by (intro Cons.IH) auto
  ultimately show ?case
    using Cons.prems by (auto split: sum.splits)
qed

lemma child_size:
  "c \<in> set (getattr_mrel (Entity cl as rs ms) a) \<Longrightarrow> size c < size (Entity cl as rs ms)"
proof -
  assume c: "c \<in> set (getattr_mrel (Entity cl as rs ms) a)"
  then obtain cs where m: "map_of ms a = Some cs" and cm: "c \<in> set cs"
    by (cases "map_of ms a") (auto simp: getattr_mrel_def)
  from m have "(a, cs) \<in> set ms" by (rule map_of_SomeD)
  then have "size_prod (\<lambda>_. 0) (size_list size) (a, cs) \<le> size_list (size_prod (\<lambda>_. 0) (size_list size)) ms"
    by (simp add: size_list_estimation')
  moreover from cm have "size c \<le> size_list size cs"
    by (simp add: size_list_estimation')
  ultimately show ?thesis by simp
qed

function entity2dict ::
  "('ki, 'sk::linorder) entity_env \<Rightarrow> 'ki \<Rightarrow> entity \<Rightarrow> error + pydict" where
  "entity2dict env keyindex (Entity cl as rs ms) =
     (case rel_loop env keyindex (Entity cl as rs ms) (InstRel cl)
             (attr_loop env (Entity cl as rs ms) (InstAttr cl) []) of
        Inl e \<Rightarrow> Inl e
      | Inr d \<Rightarrow>
          mrel_loop (\<lambda>c. entity2dict env keyindex c) (sortkey env) (Entity cl as rs ms)
            (InstMRel cl) d)"
  by pat_completeness auto
termination
  by (relation "measure (\<lambda>(env, keyindex, obj). size obj)") (auto dest: child_size)

section \<open>The writer \<open>YAMLDumpFileWriter\<close>\<close>

text \<open>The list of entity types, in the order in which the types must be restored.\<close>

definition entitytypes :: "string list" where
  "entitytypes =
     [''user'', ''grouping'', ''rule'', ''publicStep'', ''facility'', ''instrument'',
      ''parameterType'', ''investigationType'', ''sampleType'', ''datasetType'',
      ''datafileFormat'', ''facilityCycle'', ''application'', ''investigation'', ''study'',
      ''sample'', ''dataset'', ''datafile'', ''relatedDatafile'', ''dataCollection'', ''job'']"

text \<open>
  A chunk maps a type tag to a dict from key to record.  The output file is the list of
  what was written to it: the header text and the YAML documents, one for each chunk
  that \<open>yaml.dump\<close> was given.
\<close>

type_synonym chunk = "(string \<times> (string \<times> pydict) list) list"

datatype out_item = Header string | Document chunk

record writer =
  outfile :: "out_item list"
  data :: chunk

definition init_writer :: "out_item list \<Rightarrow> writer" where
  "init_writer out = \<lparr>outfile = out, data = []\<rparr>"

definition quoted :: "string \<Rightarrow> string" where
  "quoted s = [CHR 0x27] @ s @ [CHR 0x27]"



text \<open>
  \<open>add\<close> gives the writer as it is left and the exception raised, if any: the dict of
  the tag is created before the entity is encoded, and it stays when the encoder raises.
\<close>

definition add ::
  "('ki, 'sk::linorder) entity_env \<Rightarrow> writer \<Rightarrow> string \<Rightarrow> string \<Rightarrow> entity \<Rightarrow> 'ki
   \<Rightarrow> writer \<times> error option" where
  "add env w tag key obj keyindex =
     (if tag \<notin> set entitytypes
      then (w, Some (ValueError (''Unknown entity type '' @ quoted tag)))
      else
        let w1 = (if map_of (data w) tag = None
                  then w\<lparr>data := AList.update tag [] (data w)\<rparr> else w)
        in case entity2dict env keyindex obj of
             Inl e \<Rightarrow> (w1, Some e)
           | Inr r \<Rightarrow>
               (case map_of (data w1) tag of
                  None \<Rightarrow> (w1, Some (KeyError tag))
                | Some recs \<Rightarrow>
                    (w1\<lparr>data := AList.update tag (AList.update key r recs) (data w1)\<rparr>, None)))"


section \<open>The decoder \<open>dict2entity\<close>\<close>

text \<open>
  What \<open>dict2entity\<close> takes from the client: \<open>client.new\<close>, \<open>client.searchUniqueKey\<close>
  and \<open>client.getEntityInfo\<close>, whose result is the list \<open>info.fields\<close>.  Each of them may
  raise.
\<close>

datatype fieldinfo = Field (f_name: string) (f_type: string) (f_relType: string)

record 'oi client =
  new :: "string \<Rightarrow> error + entity"
  searchUniqueKey :: "pyval \<Rightarrow> 'oi \<Rightarrow> error + entity"
  getEntityInfo :: "string \<Rightarrow> error + fieldinfo list"

definition setattr_attr :: "entity \<Rightarrow> string \<Rightarrow> pyval \<Rightarrow> entity" where
  "setattr_attr obj attr v =
     Entity (cls obj) (AList.update attr v (attrs obj)) (rels obj) (mrels obj)"

definition setattr_rel :: "entity \<Rightarrow> string \<Rightarrow> entity \<Rightarrow> entity" where
  "setattr_rel obj attr robj =
     Entity (cls obj) (attrs obj) (AList.update attr robj (rels obj)) (mrels obj)"

text \<open>\<open>getattr(obj, attr).append(robj)\<close>\<close>

definition append_mrel :: "entity \<Rightarrow> string \<Rightarrow> entity \<Rightarrow> entity" where
  "append_mrel obj attr robj =
     Entity (cls obj) (attrs obj) (rels obj)
       (AList.update attr (getattr_mrel obj attr @ [robj]) (mrels obj))"

text \<open>
  The dict comprehension that gives \<open>mreltypes\<close>: \<open>insttypemap[f.type]\<close> raises
  \<open>KeyError\<close> for a bean name that \<open>insttypemap\<close> does not hold.
\<close>

fun mreltypes_of ::
  "(string \<times> string) list \<Rightarrow> fieldinfo list \<Rightarrow> (string \<times> string) list
   \<Rightarrow> error + (string \<times> string) list" where
  "mreltypes_of insttypemap [] m = Inr m"
| "mreltypes_of insttypemap (f # fs) m =
     (if f_relType f = ''MANY''
      then (case map_of insttypemap (f_type f) of
              None \<Rightarrow> Inl (KeyError (f_type f))
            | Some t \<Rightarrow> mreltypes_of insttypemap fs (AList.update (f_name f) t m))
      else mreltypes_of insttypemap fs m)"

definition get_mreltypes ::
  "'oi client \<Rightarrow> (string \<times> string) list \<Rightarrow> entity \<Rightarrow> (string \<times> string) list option
   \<Rightarrow> error + (string \<times> string) list" where
  "get_mreltypes c insttypemap obj mreltypes =
     (case mreltypes of
        Some m \<Rightarrow> Inr m
      | None \<Rightarrow>
          (case getEntityInfo c (BeanName (cls obj)) of
             Inl e \<Rightarrow> Inl e
           | Inr fs \<Rightarrow> mreltypes_of insttypemap fs []))"

definition invalid_attribute :: "string \<Rightarrow> string \<Rightarrow> error" where
  "invalid_attribute attr objtype =
     ValueError (''invalid attribute '' @ quoted attr @ '' in '' @ quoted objtype)"

text \<open>
  A string where a list of records is expected: the loop \<open>for rd in d[attr]\<close> takes its
  first character \<open>ch\<close> as the record, and the inner call iterates over that
  one-character string, whose only element is \<open>ch\<close> again; \<open>d[attr]\<close> is then a string
  indexed by a string, a \<open>TypeError\<close>.
\<close>

definition str_child ::
  "'oi client \<Rightarrow> (string \<times> string) list \<Rightarrow> (string \<times> string) list \<Rightarrow> string \<Rightarrow> char
   \<Rightarrow> error + entity" where
  "str_child c insttypemap m attr ch =
     (case map_of m attr of
        None \<Rightarrow> Inl (KeyError attr)
      | Some t \<Rightarrow>
          (case new c t of
             Inl e \<Rightarrow> Inl e
           | Inr obj \<Rightarrow>
               if [ch] \<in> set (InstAttr (cls obj)) then Inl TypeError
               else if [ch] \<in> set (InstRel (cls obj)) then Inl TypeError
               else if [ch] \<in> set (InstMRel (cls obj))
               then (case get_mreltypes c insttypemap obj None of
                       Inl e \<Rightarrow> Inl e
                     | Inr m' \<Rightarrow> Inl TypeError)
               else Inl (invalid_attribute [ch] t)))"

function dict2entity ::
    "'oi client \<Rightarrow> (string \<times> string) list \<Rightarrow> pydict \<Rightarrow> string \<Rightarrow> 'oi \<Rightarrow> error + entity"
  and fields_loop ::
    "'oi client \<Rightarrow> (string \<times> string) list \<Rightarrow> string \<Rightarrow> 'oi \<Rightarrow> pydict \<Rightarrow> entity
     \<Rightarrow> (string \<times> string) list option
     \<Rightarrow> error + entity \<times> (string \<times> string) list option"
  and children_of ::
    "'oi client \<Rightarrow> (string \<times> string) list \<Rightarrow> 'oi \<Rightarrow> (string \<times> string) list \<Rightarrow> string
     \<Rightarrow> pyval \<Rightarrow> entity \<Rightarrow> error + entity"
  and children_loop ::
    "'oi client \<Rightarrow> (string \<times> string) list \<Rightarrow> 'oi \<Rightarrow> (string \<times> string) list \<Rightarrow> string
     \<Rightarrow> pydict list \<Rightarrow> entity \<Rightarrow> error + entity" where
  "dict2entity c insttypemap d objtype objindex =
     (case new c objtype of
        Inl e \<Rightarrow> Inl e
      | Inr obj \<Rightarrow>
          (case fields_loop c insttypemap objtype objindex d obj None of
             Inl e \<Rightarrow> Inl e
           | Inr (obj', mreltypes) \<Rightarrow> Inr obj'))"
| "fields_loop c insttypemap objtype objindex [] obj mreltypes = Inr (obj, mreltypes)"
| "fields_loop c insttypemap objtype objindex ((attr, v) # rest) obj mreltypes =
     (if attr \<in> set (InstAttr (cls obj))
      then fields_loop c insttypemap objtype objindex rest (setattr_attr obj attr v) mreltypes
      else if attr \<in> set (InstRel (cls obj))
      then (case searchUniqueKey c v objindex of
              Inl e \<Rightarrow> Inl e
            | Inr robj \<Rightarrow>
                fields_loop c insttypemap objtype objindex rest (setattr_rel obj attr robj)
                  mreltypes)
      else if attr \<in> set (InstMRel (cls obj))
      then (case get_mreltypes c insttypemap obj mreltypes of
              Inl e \<Rightarrow> Inl e
            | Inr m \<Rightarrow>
                (case children_of c insttypemap objindex m attr v obj of
                   Inl e \<Rightarrow> Inl e
                 | Inr obj' \<Rightarrow>
                     fields_loop c insttypemap objtype objindex rest obj' (Some m)))
      else Inl (invalid_attribute attr objtype))"
| "children_of c insttypemap objindex m attr (PList rds) obj =
     children_loop c insttypemap objindex m attr rds obj"
| "children_of c insttypemap objindex m attr (PStr s) obj =
     (case s of
        [] \<Rightarrow> Inr obj
      | ch # _ \<Rightarrow>
          (case str_child c insttypemap m attr ch of Inl e \<Rightarrow> Inl e | Inr robj \<Rightarrow> Inl TypeError))"
| "children_of c insttypemap objindex m attr PNone obj = Inl TypeError"
| "children_of c insttypemap objindex m attr (PBool b) obj = Inl TypeError"
| "children_of c insttypemap objindex m attr (PInt i) obj = Inl TypeError"
| "children_of c insttypemap objindex m attr (PDateTime t) obj = Inl TypeError"
| "children_of c insttypemap objindex m attr (POther r) obj = Inl TypeError"
| "children_loop c insttypemap objindex m attr [] obj = Inr obj"
| "children_loop c insttypemap objindex m attr (rd # rds) obj =
     (case map_of m attr of
        None \<Rightarrow> Inl (KeyError attr)
      | Some t \<Rightarrow>
          (case dict2entity c insttypemap rd t objindex of
             Inl e \<Rightarrow> Inl e
           | Inr robj \<Rightarrow>
               children_loop c insttypemap objindex m attr rds (append_mrel obj attr robj)))"
  by pat_completeness auto
termination
  by (relation "measure (\<lambda>x. case x of
         Inl (Inl (c, i, d, t, oi)) \<Rightarrow> 2 * size_list (size_prod (\<lambda>_. 0) size) d + 1
       | Inl (Inr (c, i, t, oi, d, obj, m)) \<Rightarrow> 2 * size_list (size_prod (\<lambda>_. 0) size) d
       | Inr (Inl (c, i, oi, m, a, v, obj)) \<Rightarrow> 2 * size v
       | Inr (Inr (c, i, oi, m, a, rds, obj)) \<Rightarrow>
           2 * size_list (size_list (size_prod (\<lambda>_. 0) size)) rds)") auto

section \<open>The reader \<open>YAMLDumpFileReader\<close>\<close>

text \<open>
  \<open>getobjs\<close> is a generator: between two items the caller runs, and it may change
  \<open>objindex\<close>, which the decoding of the records that follow reads.  \<open>consume\<close> is what
  the caller does to \<open>objindex\<close> with the key and the object of an item.  The result is
  the list of the items yielded, each with the \<open>name\<close> of the loop that yielded it, and
  the exception that ended the iteration, if any.
\<close>

fun getobjs_items ::
  "'oi client \<Rightarrow> (string \<times> string) list \<Rightarrow> (string \<Rightarrow> entity \<Rightarrow> 'oi \<Rightarrow> 'oi) \<Rightarrow> string
   \<Rightarrow> (string \<times> pydict) list \<Rightarrow> 'oi
   \<Rightarrow> (string \<times> string \<times> entity) list \<times> (error + 'oi)" where
  "getobjs_items c insttypemap consume name [] objindex = ([], Inr objindex)"
| "getobjs_items c insttypemap consume name ((key, d) # rest) objindex =
     (case dict2entity c insttypemap d name objindex of
        Inl e \<Rightarrow> ([], Inl e)
      | Inr obj \<Rightarrow>
          (case getobjs_items c insttypemap consume name rest (consume key obj objindex) of
             (ys, r) \<Rightarrow> ((name, key, obj) # ys, r)))"

fun getobjs_names ::
  "'oi client \<Rightarrow> (string \<times> string) list \<Rightarrow> (string \<Rightarrow> entity \<Rightarrow> 'oi \<Rightarrow> 'oi) \<Rightarrow> chunk
   \<Rightarrow> string list \<Rightarrow> 'oi
   \<Rightarrow> (string \<times> string \<times> entity) list \<times> (error + 'oi)" where
  "getobjs_names c insttypemap consume chunk [] objindex = ([], Inr objindex)"
| "getobjs_names c insttypemap consume chunk (name # names) objindex =
     (case map_of chunk name of
        None \<Rightarrow> getobjs_names c insttypemap consume chunk names objindex
      | Some recs \<Rightarrow>
          (case getobjs_items c insttypemap consume name recs objindex of
             (ys, Inl e) \<Rightarrow> (ys, Inl e)
           | (ys, Inr objindex') \<Rightarrow>
               (case getobjs_names c insttypemap consume chunk names objindex' of
                  (zs, r) \<Rightarrow> (ys @ zs, r))))"

definition getobjs_tagged ::
  "'oi client \<Rightarrow> (string \<times> string) list \<Rightarrow> (string \<Rightarrow> entity \<Rightarrow> 'oi \<Rightarrow> 'oi) \<Rightarrow> chunk \<Rightarrow> 'oi
   \<Rightarrow> (string \<times> string \<times> entity) list \<times> (error + 'oi)" where
  "getobjs_tagged c insttypemap consume chunk objindex =
     getobjs_names c insttypemap consume chunk entitytypes objindex"

text \<open>The items as the generator yields them: the key and the object.\<close>

definition getobjs ::
  "'oi client \<Rightarrow> (string \<times> string) list \<Rightarrow> (string \<Rightarrow> entity \<Rightarrow> 'oi \<Rightarrow> 'oi) \<Rightarrow> chunk \<Rightarrow> 'oi
   \<Rightarrow> (string \<times> entity) list \<times> (error + 'oi)" where
  "getobjs c insttypemap consume chunk objindex =
     (case getobjs_tagged c insttypemap consume chunk objindex of
        (ys, r) \<Rightarrow> (map snd ys, r))"

section \<open>Well-formed classes, the shape of records, and example objects\<close>

text \<open>
  The names that a class declares are the elements of three frozensets, which in every
  class of \<open>icat/entities.py\<close> are disjoint, and \<open>id\<close> is a plain attribute.
\<close>

definition wf_class :: "entclass \<Rightarrow> bool" where
  "wf_class cl \<longleftrightarrow>
     distinct (InstAttr cl @ InstRel cl @ InstMRel cl)
     \<and> ''id'' \<notin> set (InstRel cl) \<and> ''id'' \<notin> set (InstMRel cl)"

text \<open>
  The shape of a value of a record: a \<open>bool\<close>, an \<open>int\<close>, a string, or a list of
  records whose values have that shape.
\<close>

fun rendered :: "pyval \<Rightarrow> bool" where
  "rendered PNone = False"
| "rendered (PBool b) = True"
| "rendered (PInt i) = True"
| "rendered (PDateTime v) = False"
| "rendered (PStr s) = True"
| "rendered (POther r) = False"
| "rendered (PList rs) = (\<forall>r \<in> set rs. \<forall>kv \<in> set r. rendered (snd kv))"

text \<open>The classes \<open>Datafile\<close> and \<open>Dataset\<close> of \<open>icat/entities.py\<close>.\<close>

definition Datafile :: entclass where
  "Datafile =
     \<lparr>BeanName = ''Datafile'',
      InstAttr = [''id'', ''name'', ''description'', ''location'', ''fileSize'', ''checksum'',
                  ''datafileCreateTime'', ''datafileModTime'', ''doi''],
      InstRel = [''datafileFormat'', ''dataset''],
      InstMRel = [''parameters'', ''inputDatafiles'', ''outputDatafiles'', ''sourceDatafiles'',
                  ''destDatafiles'']\<rparr>"

definition Dataset :: entclass where
  "Dataset =
     \<lparr>BeanName = ''Dataset'',
      InstAttr = [''id'', ''name'', ''description'', ''location'', ''startDate'', ''endDate'',
                  ''complete'', ''doi''],
      InstRel = [''type'', ''sample'', ''investigation''],
      InstMRel = [''parameters'', ''datafiles'', ''inputDatasets'', ''outputDatasets'']\<rparr>"

definition ex_env :: "(unit, int) entity_env" where
  "ex_env =
     \<lparr>getUniqueKey = (\<lambda>t ki. case getattr_attr t ''name'' of
                                 PStr n \<Rightarrow> Inr (BeanName (cls t) @ ''_name-'' @ n)
                               | _ \<Rightarrow> Inl (External ''no unique key'')),
      sortkey = (\<lambda>t. case getattr_attr t ''fileSize'' of PInt i \<Rightarrow> i | _ \<Rightarrow> 0),
      str_list = (\<lambda>l. ''[...]'')\<rparr>"

definition ex_time :: datetime where
  "ex_time = \<lparr>year = 2014, month = 3, day = 9, hour = 8, minute = 30, second = 5,
              microsecond = 0, tzinfo = None\<rparr>"

definition ex_time_tz :: datetime where
  "ex_time_tz = \<lparr>year = 2014, month = 3, day = 9, hour = 8, minute = 30, second = 5,
              microsecond = 250, tzinfo = Some (TZ (Some (- 90)))\<rparr>"

definition ex_parent :: entity where
  "ex_parent = Entity Dataset [(''name'', PStr ''run1'')] [] []"

definition ex_file :: "string \<Rightarrow> int \<Rightarrow> entity" where
  "ex_file n sz =
     Entity Datafile
       [(''id'', PInt 12), (''name'', PStr n), (''description'', PNone), (''fileSize'', PInt sz),
        (''datafileModTime'', PDateTime ex_time_tz)]
       [(''dataset'', ex_parent)] []"

definition ex_dataset :: entity where
  "ex_dataset =
     Entity Dataset
       [(''id'', PInt 3), (''name'', PStr ''run1''), (''complete'', PBool False),
        (''startDate'', PDateTime ex_time)]
       []
       [(''datafiles'', [ex_file ''b.dat'' 20, ex_file ''a.dat'' 10]), (''parameters'', [])]"


definition ex_record :: pydict where
  "ex_record =
     [(''name'', PStr ''run1''),
      (''startDate'', PStr ''2014-03-09T08:30:05Z''),
      (''complete'', PBool False),
      (''datafiles'',
       PList
        [[(''name'', PStr ''a.dat''), (''fileSize'', PInt 10),
          (''datafileModTime'', PStr ''2014-03-09T08:30:05.000250-01:30''),
          (''dataset'', PStr ''Dataset_name-run1'')],
         [(''name'', PStr ''b.dat''), (''fileSize'', PInt 20),
          (''datafileModTime'', PStr ''2014-03-09T08:30:05.000250-01:30''),
          (''dataset'', PStr ''Dataset_name-run1'')]])]"


definition ex_file_record :: pydict where
  "ex_file_record =
     [(''name'', PStr ''a.dat''), (''fileSize'', PInt 10),
      (''datafileModTime'', PStr ''2014-03-09T08:30:05.000250-01:30''),
      (''dataset'', PStr ''Dataset_name-run1'')]"

definition ex_bogus :: entity where
  "ex_bogus = Entity Datafile [(''name'', PStr ''a.dat''), (''bogus'', PInt 1)] [] []"




text \<open>
  A client that knows the types \<open>datafile\<close> and \<open>dataset\<close> and finds one dataset by its
  key, and the map from bean names to type names.
\<close>

definition ex_client :: "'oi client" where
  "ex_client =
     \<lparr>new = (\<lambda>t. if t = ''datafile'' then Inr (Entity Datafile [] [] [])
                 else if t = ''dataset'' then Inr (Entity Dataset [] [] [])
                 else Inl (External ''Invalid entity type'')),
      searchUniqueKey = (\<lambda>k oi. if k = PStr ''Dataset_name-run1'' then Inr ex_parent
                               else Inl (External ''not found'')),
      getEntityInfo = (\<lambda>b. if b = ''Dataset''
                            then Inr [Field ''name'' ''String'' ''ATTRIBUTE'',
                                      Field ''investigation'' ''Investigation'' ''ONE'',
                                      Field ''datafiles'' ''Datafile'' ''MANY'']
                            else if b = ''Datafile''
                            then Inr [Field ''name'' ''String'' ''ATTRIBUTE'',
                                      Field ''dataset'' ''Dataset'' ''ONE'']
                            else Inl (External ''no such bean''))\<rparr>"

definition ex_insttypemap :: "(string \<times> string) list" where
  "ex_insttypemap = [(''Datafile'', ''datafile''), (''Dataset'', ''dataset'')]"


text \<open>The position of a type in a list of types.\<close>

fun index_of :: "'a list \<Rightarrow> 'a \<Rightarrow> nat" where
  "index_of [] x = 0"
| "index_of (y # ys) x = (if x = y then 0 else Suc (index_of ys x))"

definition ex_chunk :: chunk where
  "ex_chunk =
     [(''datafile'', [(''Datafile_name-a.dat'', ex_file_record)]),
      (''dataset'', [(''Dataset_name-run1'', [(''name'', PStr ''run1'')])])]"


definition ex_decoded_file :: entity where
  "ex_decoded_file =
     Entity Datafile
       [(''name'', PStr ''a.dat''), (''fileSize'', PInt 10),
        (''datafileModTime'', PStr ''2014-03-09T08:30:05.000250-01:30'')]
       [(''dataset'', ex_parent)] []"












section \<open>Properties of the encoder\<close>

lemma attr_loop_lookup:
  "map_of (attr_loop env obj as d) a =
     (if a \<in> set as \<and> a \<noteq> ''id'' \<and> render env (getattr_attr obj a) \<noteq> None
      then render env (getattr_attr obj a) else map_of d a)"
  by (induction as arbitrary: d) (auto simp: update_conv' split: option.splits)

lemma rel_loop_lookup:
  "rel_loop env ki obj as d = Inr d' \<Longrightarrow>
     (case (if a \<in> set as then getattr_rel obj a else None) of
        None \<Rightarrow> map_of d' a = map_of d a
      | Some t \<Rightarrow> (\<exists>k. getUniqueKey env t ki = Inr k \<and> map_of d' a = Some (PStr k)))"
proof (induction as arbitrary: d)
  case Nil
  then show ?case by simp
next
  case (Cons b as)
  show ?case
  proof (cases "getattr_rel obj b")
    case None
    with Cons.prems have "rel_loop env ki obj as d = Inr d'" by simp
    from Cons.IH[OF this] None show ?thesis by (auto split: option.splits if_splits)
  next
    case (Some t)
    with Cons.prems obtain k where k: "getUniqueKey env t ki = Inr k"
      and r: "rel_loop env ki obj as (AList.update b (PStr k) d) = Inr d'"
      by (auto split: sum.splits)
    from Cons.IH[OF r] Some k show ?thesis
      by (auto simp: update_conv' split: option.splits if_splits)
  qed
qed

lemma mrel_loop_lookup:
  "mrel_loop enc key obj as d = Inr d' \<Longrightarrow>
     (if a \<in> set as \<and> getattr_mrel obj a \<noteq> []
      then \<exists>rs. encode_children enc (sort_key key (getattr_mrel obj a)) = Inr rs
                \<and> map_of d' a = Some (PList rs)
      else map_of d' a = map_of d a)"
proof (induction as arbitrary: d)
  case Nil
  then show ?case by simp
next
  case (Cons b as)
  show ?case
  proof (cases "getattr_mrel obj b = []")
    case True
    with Cons.prems have "mrel_loop enc key obj as d = Inr d'" by simp
    from Cons.IH[OF this] True show ?thesis by (auto split: if_splits)
  next
    case False
    with Cons.prems obtain rs where k: "encode_children enc (sort_key key (getattr_mrel obj b)) = Inr rs"
      and r: "mrel_loop enc key obj as (AList.update b (PList rs) d) = Inr d'"
      by (auto split: sum.splits)
    from Cons.IH[OF r] False k show ?thesis
      by (auto simp: update_conv' split: if_splits)
  qed
qed

lemma encode_children_all2:
  "encode_children enc cs = Inr rs \<longleftrightarrow> list_all2 (\<lambda>c r. enc c = Inr r) cs rs"
proof (induction cs arbitrary: rs)
  case Nil
  then show ?case by auto
next
  case (Cons c cs)
  show ?case
  proof (cases rs)
    case Nil
    then show ?thesis by (auto split: sum.splits)
  next
    case (Cons r rs')
    then show ?thesis using Cons.IH[of rs'] by (auto split: sum.splits)
  qed
qed

lemma entity2dict_lookup:
  assumes "entity2dict env ki obj = Inr d"
  shows "if a \<in> set (InstMRel (cls obj)) \<and> getattr_mrel obj a \<noteq> []
         then \<exists>rs. encode_children (entity2dict env ki) (sort_key (sortkey env) (getattr_mrel obj a)) = Inr rs
                \<and> map_of d a = Some (PList rs)
         else if a \<in> set (InstRel (cls obj)) \<and> getattr_rel obj a \<noteq> None
         then \<exists>k. getUniqueKey env (the (getattr_rel obj a)) ki = Inr k \<and> map_of d a = Some (PStr k)
         else if a \<in> set (InstAttr (cls obj)) \<and> a \<noteq> ''id''
         then map_of d a = render env (getattr_attr obj a)
         else map_of d a = None"
proof (cases obj)
  case (Entity cl as rs ms)
  from assms obtain d1 where
    r: "rel_loop env ki obj (InstRel cl) (attr_loop env obj (InstAttr cl) []) = Inr d1"
    and m: "mrel_loop (entity2dict env ki) (sortkey env) obj (InstMRel cl) d1 = Inr d"
    unfolding Entity by (auto split: sum.splits)
  note A = attr_loop_lookup[of env obj "InstAttr cl" "[]" a]
  note R = rel_loop_lookup[OF r, of a]
  note M = mrel_loop_lookup[OF m, of a]
  show ?thesis
    using A R M unfolding Entity by (auto split: if_splits option.splits)
qed

lemma set_update_cases:
  "kv \<in> set (AList.update k v al) \<Longrightarrow> kv = (k, v) \<or> kv \<in> set al"
  by (induction al) (auto split: if_splits)

lemma render_rendered: "render env v = Some w \<Longrightarrow> rendered w"
  by (cases v) (auto split: if_splits)

lemma attr_loop_rendered:
  "\<forall>kv \<in> set d. rendered (snd kv) \<Longrightarrow> \<forall>kv \<in> set (attr_loop env obj as d). rendered (snd kv)"
proof (induction as arbitrary: d)
  case Nil
  then show ?case by simp
next
  case (Cons a as)
  show ?case
  proof (cases "a = ''id'' \<or> render env (getattr_attr obj a) = None")
    case True
    then show ?thesis using Cons.IH[OF Cons.prems] by auto
  next
    case False
    then obtain w where w: "render env (getattr_attr obj a) = Some w" by auto
    have "\<forall>kv \<in> set (AList.update a w d). rendered (snd kv)"
      using Cons.prems render_rendered[OF w] by (auto dest!: set_update_cases)
    from Cons.IH[OF this] False w show ?thesis by simp
  qed
qed

lemma rel_loop_rendered:
  "rel_loop env ki obj as d = Inr d' \<Longrightarrow> \<forall>kv \<in> set d. rendered (snd kv)
   \<Longrightarrow> \<forall>kv \<in> set d'. rendered (snd kv)"
proof (induction as arbitrary: d)
  case Nil
  then show ?case by simp
next
  case (Cons b as)
  show ?case
  proof (cases "getattr_rel obj b")
    case None
    with Cons.prems have "rel_loop env ki obj as d = Inr d'" by simp
    from Cons.IH[OF this Cons.prems(2)] show ?thesis .
  next
    case (Some t)
    with Cons.prems obtain k where k: "getUniqueKey env t ki = Inr k"
      and r: "rel_loop env ki obj as (AList.update b (PStr k) d) = Inr d'"
      by (auto split: sum.splits)
    have "\<forall>kv \<in> set (AList.update b (PStr k) d). rendered (snd kv)"
      using Cons.prems(2) by (auto dest!: set_update_cases)
    from Cons.IH[OF r this] show ?thesis .
  qed
qed

lemma mrel_loop_rendered:
  "mrel_loop enc key obj as d = Inr d' \<Longrightarrow> \<forall>kv \<in> set d. rendered (snd kv)
   \<Longrightarrow> (\<And>a c r. a \<in> set as \<Longrightarrow> c \<in> set (getattr_mrel obj a) \<Longrightarrow> enc c = Inr r
         \<Longrightarrow> \<forall>kv \<in> set r. rendered (snd kv))
   \<Longrightarrow> \<forall>kv \<in> set d'. rendered (snd kv)"
proof (induction as arbitrary: d)
  case Nil
  then show ?case by simp
next
  case (Cons b as)
  have step: "\<And>a c r. a \<in> set as \<Longrightarrow> c \<in> set (getattr_mrel obj a) \<Longrightarrow> enc c = Inr r
         \<Longrightarrow> \<forall>kv \<in> set r. rendered (snd kv)"
    using Cons.prems(3) by (meson list.set_intros(2))
  show ?case
  proof (cases "getattr_mrel obj b = []")
    case True
    with Cons.prems have "mrel_loop enc key obj as d = Inr d'" by simp
    then show ?thesis by (rule Cons.IH[OF _ Cons.prems(2)]) (rule step)
  next
    case False
    with Cons.prems obtain rs where k: "encode_children enc (sort_key key (getattr_mrel obj b)) = Inr rs"
      and r: "mrel_loop enc key obj as (AList.update b (PList rs) d) = Inr d'"
      by (auto split: sum.splits)
    from k have all2: "list_all2 (\<lambda>c r. enc c = Inr r) (sort_key key (getattr_mrel obj b)) rs"
      by (simp add: encode_children_all2)
    have "\<forall>r \<in> set rs. \<forall>kv \<in> set r. rendered (snd kv)"
    proof
      fix r assume "r \<in> set rs"
      then obtain i where i: "i < length rs" "rs ! i = r"
        by (auto simp: in_set_conv_nth)
      from all2 have len: "length (sort_key key (getattr_mrel obj b)) = length rs"
        by (rule list_all2_lengthD)
      from all2 i len have "enc (sort_key key (getattr_mrel obj b) ! i) = Inr r"
        by (auto simp: list_all2_conv_all_nth)
      moreover from i len have "sort_key key (getattr_mrel obj b) ! i \<in> set (sort_key key (getattr_mrel obj b))"
        by (metis nth_mem)
      ultimately obtain c where "c \<in> set (sort_key key (getattr_mrel obj b))" and "enc c = Inr r"
        by blast
      then show "\<forall>kv \<in> set r. rendered (snd kv)"
        using Cons.prems(3)[of b c r] by simp
    qed
    then have "\<forall>kv \<in> set (AList.update b (PList rs) d). rendered (snd kv)"
      using Cons.prems(2) by (auto dest!: set_update_cases)
    then show ?thesis by (rule Cons.IH[OF r]) (rule step)
  qed
qed

lemma entity2dict_rendered_aux:
  "\<forall>d. entity2dict env ki obj = Inr d \<longrightarrow> (\<forall>kv \<in> set d. rendered (snd kv))"
proof (induction env ki obj rule: entity2dict.induct)
  case (1 env ki cl as rs ms)
  show ?case
  proof (intro allI impI)
    fix d assume e: "entity2dict env ki (Entity cl as rs ms) = Inr d"
    then obtain d1 where
      r: "rel_loop env ki (Entity cl as rs ms) (InstRel cl)
            (attr_loop env (Entity cl as rs ms) (InstAttr cl) []) = Inr d1"
      and m: "mrel_loop (entity2dict env ki) (sortkey env) (Entity cl as rs ms) (InstMRel cl) d1 = Inr d"
      by (auto split: sum.splits)
    have a: "\<forall>kv \<in> set (attr_loop env (Entity cl as rs ms) (InstAttr cl) []). rendered (snd kv)"
      by (rule attr_loop_rendered) simp
    have d1: "\<forall>kv \<in> set d1. rendered (snd kv)"
      by (rule rel_loop_rendered[OF r a])
    show "\<forall>kv \<in> set d. rendered (snd kv)"
    proof (rule mrel_loop_rendered[OF m d1])
      fix a c r
      assume "a \<in> set (InstMRel cl)" "c \<in> set (getattr_mrel (Entity cl as rs ms) a)"
        "entity2dict env ki c = Inr r"
      with "1.IH"[OF r] show "\<forall>kv \<in> set r. rendered (snd kv)" by blast
    qed
  qed
qed

lemma ex_dataset_encoded: "entity2dict ex_env () ex_dataset = Inr ex_record"
  by code_simp

lemma ex_file_encoded: "entity2dict ex_env () (ex_file ''a.dat'' 10) = Inr ex_file_record"
  by code_simp

lemma wf_class_Datafile: "wf_class Datafile"
  by code_simp

lemma wf_class_Dataset: "wf_class Dataset"
  by code_simp

text \<open>
  Claim C10: every value of the record that the encoder gives is a \<open>bool\<close>, an \<open>int\<close>,
  a string, or a list of records of that shape; no value is \<open>None\<close>, and none is a
  \<open>datetime\<close> object.
\<close>

theorem entity2dict_rendered:
  "entity2dict env ki obj = Inr d \<Longrightarrow> \<forall>kv \<in> set d. rendered (snd kv)"
  using entity2dict_rendered_aux [of env ki obj] by blast

theorem entity2dict_rendered_witness:
  "entity2dict ex_env () ex_dataset = Inr ex_record \<and> ex_record \<noteq> []
   \<and> list_all (\<lambda>kv. rendered (snd kv)) ex_record"
proof -
  have "ex_record \<noteq> []"
    by (simp add: ex_record_def)
  moreover have "list_all (\<lambda>kv. rendered (snd kv)) ex_record"
    using entity2dict_rendered [of ex_env "()" ex_dataset ex_record] ex_dataset_encoded
    by (simp add: list_all_iff)
  ultimately show ?thesis
    using ex_dataset_encoded by simp
qed



text \<open>
  Claim C5: the record has no field \<open>id\<close>, no field for a plain attribute or a to-one
  relation whose value is \<open>None\<close>, and no field for a to-many relation that is empty.
\<close>

theorem entity2dict_omits:
  assumes "entity2dict env ki obj = Inr d" and "wf_class (cls obj)"
  shows "''id'' \<notin> fst ` set d
       \<and> (\<forall>a \<in> set (InstAttr (cls obj)). getattr_attr obj a = PNone \<longrightarrow> a \<notin> fst ` set d)
       \<and> (\<forall>a \<in> set (InstRel (cls obj)). getattr_rel obj a = None \<longrightarrow> a \<notin> fst ` set d)
       \<and> (\<forall>a \<in> set (InstMRel (cls obj)). getattr_mrel obj a = [] \<longrightarrow> a \<notin> fst ` set d)"
proof -
  have absent: "\<And>a. map_of d a = None \<Longrightarrow> a \<notin> fst ` set d"
    by (simp add: map_of_eq_None_iff)
  have disj: "set (InstAttr (cls obj)) \<inter> set (InstRel (cls obj)) = {}"
    "set (InstAttr (cls obj)) \<inter> set (InstMRel (cls obj)) = {}"
    "set (InstRel (cls obj)) \<inter> set (InstMRel (cls obj)) = {}"
    "''id'' \<notin> set (InstRel (cls obj))" "''id'' \<notin> set (InstMRel (cls obj))"
    using assms(2) by (auto simp: wf_class_def)
  have "map_of d ''id'' = None"
    using entity2dict_lookup [OF assms(1), of "''id''"] disj by simp
  moreover have "map_of d a = None"
    if "a \<in> set (InstAttr (cls obj))" "getattr_attr obj a = PNone" for a
    using entity2dict_lookup [OF assms(1), of a] disj that by (auto split: if_splits)
  moreover have "map_of d a = None"
    if "a \<in> set (InstRel (cls obj))" "getattr_rel obj a = None" for a
    using entity2dict_lookup [OF assms(1), of a] disj that by (auto split: if_splits)
  moreover have "map_of d a = None"
    if "a \<in> set (InstMRel (cls obj))" "getattr_mrel obj a = []" for a
    using entity2dict_lookup [OF assms(1), of a] disj that by (auto split: if_splits)
  ultimately show ?thesis using absent by blast
qed

theorem entity2dict_omits_witness:
  "wf_class (cls (ex_file ''a.dat'' 10))
   \<and> entity2dict ex_env () (ex_file ''a.dat'' 10) = Inr ex_file_record
   \<and> getattr_attr (ex_file ''a.dat'' 10) ''id'' = PInt 12
   \<and> ''id'' \<notin> fst ` set ex_file_record
   \<and> ''description'' \<in> set (InstAttr (cls (ex_file ''a.dat'' 10)))
   \<and> getattr_attr (ex_file ''a.dat'' 10) ''description'' = PNone
   \<and> ''description'' \<notin> fst ` set ex_file_record
   \<and> ''datafileFormat'' \<in> set (InstRel (cls (ex_file ''a.dat'' 10)))
   \<and> getattr_rel (ex_file ''a.dat'' 10) ''datafileFormat'' = None
   \<and> ''datafileFormat'' \<notin> fst ` set ex_file_record
   \<and> ''parameters'' \<in> set (InstMRel (cls (ex_file ''a.dat'' 10)))
   \<and> getattr_mrel (ex_file ''a.dat'' 10) ''parameters'' = []
   \<and> ''parameters'' \<notin> fst ` set ex_file_record"
proof -
  have w: "wf_class (cls (ex_file ''a.dat'' 10))"
    by code_simp
  have 1: "getattr_attr (ex_file ''a.dat'' 10) ''id'' = PInt 12"
    "''description'' \<in> set (InstAttr (cls (ex_file ''a.dat'' 10)))"
    "getattr_attr (ex_file ''a.dat'' 10) ''description'' = PNone"
    "''datafileFormat'' \<in> set (InstRel (cls (ex_file ''a.dat'' 10)))"
    "getattr_rel (ex_file ''a.dat'' 10) ''datafileFormat'' = None"
    "''parameters'' \<in> set (InstMRel (cls (ex_file ''a.dat'' 10)))"
    "getattr_mrel (ex_file ''a.dat'' 10) ''parameters'' = []"
    by code_simp+
  show ?thesis
    using entity2dict_omits [OF ex_file_encoded w] w ex_file_encoded 1 by blast
qed

lemma attr_loop_declared:
  "\<forall>a \<in> set as. getattr_attr obj' a = getattr_attr obj a
   \<Longrightarrow> attr_loop env obj' as d = attr_loop env obj as d"
  by (induction as arbitrary: d) (auto split: option.splits)

lemma rel_loop_declared:
  "\<forall>a \<in> set as. getattr_rel obj' a = getattr_rel obj a
   \<Longrightarrow> rel_loop env ki obj' as d = rel_loop env ki obj as d"
  by (induction as arbitrary: d) (auto split: option.splits sum.splits)

lemma mrel_loop_declared:
  "\<forall>a \<in> set as. sort_key key (getattr_mrel obj' a) = sort_key key (getattr_mrel obj a)
   \<Longrightarrow> mrel_loop enc key obj' as d = mrel_loop enc key obj as d"
proof (induction as arbitrary: d)
  case Nil
  then show ?case by simp
next
  case (Cons a as)
  have s: "sort_key key (getattr_mrel obj' a) = sort_key key (getattr_mrel obj a)"
    using Cons.prems by simp
  then have "length (sort_key key (getattr_mrel obj' a)) = length (sort_key key (getattr_mrel obj a))"
    by simp
  then have l: "length (getattr_mrel obj' a) = length (getattr_mrel obj a)"
    by simp
  have "\<And>d. mrel_loop enc key obj' as d = mrel_loop enc key obj as d"
    using Cons.prems by (intro Cons.IH) simp
  then show ?case using s l by (simp split: sum.splits)
qed

lemma entity2dict_declared:
  assumes "cls obj' = cls obj"
    and "\<forall>a \<in> set (InstAttr (cls obj)). getattr_attr obj' a = getattr_attr obj a"
    and "\<forall>a \<in> set (InstRel (cls obj)). getattr_rel obj' a = getattr_rel obj a"
    and "\<forall>a \<in> set (InstMRel (cls obj)).
           sort_key (sortkey env) (getattr_mrel obj' a) = sort_key (sortkey env) (getattr_mrel obj a)"
  shows "entity2dict env ki obj' = entity2dict env ki obj"
proof (cases obj)
  case (Entity cl as rs ms)
  obtain as' rs' ms' where o': "obj' = Entity cl as' rs' ms'"
    using assms(1) Entity by (cases obj') simp
  have "attr_loop env obj' (InstAttr cl) [] = attr_loop env obj (InstAttr cl) []"
    using assms(2) Entity by (intro attr_loop_declared) simp
  moreover have "\<And>d. rel_loop env ki obj' (InstRel cl) d = rel_loop env ki obj (InstRel cl) d"
    using assms(3) Entity by (intro rel_loop_declared) simp
  moreover have "\<And>d. mrel_loop (entity2dict env ki) (sortkey env) obj' (InstMRel cl) d
                     = mrel_loop (entity2dict env ki) (sortkey env) obj (InstMRel cl) d"
    using assms(4) Entity by (intro mrel_loop_declared) simp
  ultimately show ?thesis
    unfolding o' Entity by (simp split: sum.splits)
qed


lemma update_getattr_attr:
  "a \<noteq> b \<Longrightarrow> getattr_attr (Entity cl (AList.update a v as) rs ms) b = getattr_attr (Entity cl as rs ms) b"
  by (simp add: getattr_attr_def update_conv')

lemma update_getattr_rel:
  "a \<noteq> b \<Longrightarrow> getattr_rel (Entity cl as (AList.update a v rs) ms) b = getattr_rel (Entity cl as rs ms) b"
  by (simp add: getattr_rel_def update_conv')

lemma update_getattr_mrel:
  "a \<noteq> b \<Longrightarrow> getattr_mrel (Entity cl as rs (AList.update a v ms)) b = getattr_mrel (Entity cl as rs ms) b"
  by (simp add: getattr_mrel_def update_conv')

text \<open>
  Claim C9, as amended: the encoder reads the fields that the class declares and no
  other.  A value that an entity holds under an undeclared name does not make the
  encoding fail; the result is that of the entity without it.
\<close>

theorem entity2dict_ignores_undeclared:
  assumes "a \<notin> set (InstAttr cl)" and "b \<notin> set (InstRel cl)" and "c \<notin> set (InstMRel cl)"
  shows "entity2dict env ki
           (Entity cl (AList.update a v as) (AList.update b t rs) (AList.update c cs ms))
         = entity2dict env ki (Entity cl as rs ms)"
proof (rule entity2dict_declared)
  show "cls (Entity cl (AList.update a v as) (AList.update b t rs) (AList.update c cs ms))
        = cls (Entity cl as rs ms)" by simp
  show "\<forall>x\<in>set (InstAttr (cls (Entity cl as rs ms))).
          getattr_attr (Entity cl (AList.update a v as) (AList.update b t rs) (AList.update c cs ms)) x
          = getattr_attr (Entity cl as rs ms) x"
    using assms(1) by (auto simp: getattr_attr_def update_conv')
  show "\<forall>x\<in>set (InstRel (cls (Entity cl as rs ms))).
          getattr_rel (Entity cl (AList.update a v as) (AList.update b t rs) (AList.update c cs ms)) x
          = getattr_rel (Entity cl as rs ms) x"
    using assms(2) by (auto simp: getattr_rel_def update_conv')
  show "\<forall>x\<in>set (InstMRel (cls (Entity cl as rs ms))).
          sort_key (sortkey env)
            (getattr_mrel (Entity cl (AList.update a v as) (AList.update b t rs) (AList.update c cs ms)) x)
          = sort_key (sortkey env) (getattr_mrel (Entity cl as rs ms) x)"
    using assms(3) by (auto simp: getattr_mrel_def update_conv')
qed

text \<open>
  Against claim C9 as stated: a datafile that holds \<open>bogus = 1\<close>, which its class does
  not declare, is encoded, and the record has no such field.
\<close>

theorem entity2dict_undeclared_counterexample:
  "''bogus'' \<notin> set (InstAttr (cls ex_bogus) @ InstRel (cls ex_bogus) @ InstMRel (cls ex_bogus))
   \<and> getattr_attr ex_bogus ''bogus'' = PInt 1
   \<and> entity2dict ex_env () ex_bogus = Inr [(''name'', PStr ''a.dat'')]"
  by code_simp

theorem entity2dict_ignores_undeclared_witness:
  "''bogus'' \<notin> set (InstAttr Datafile) \<and> ''owner'' \<notin> set (InstRel Datafile)
   \<and> ''notes'' \<notin> set (InstMRel Datafile)
   \<and> entity2dict ex_env ()
        (Entity Datafile (AList.update ''bogus'' (PInt 1) [(''name'', PStr ''a.dat'')])
           (AList.update ''owner'' ex_parent []) (AList.update ''notes'' [ex_parent] []))
      = Inr [(''name'', PStr ''a.dat'')]"
proof -
  have 1: "''bogus'' \<notin> set (InstAttr Datafile)" "''owner'' \<notin> set (InstRel Datafile)"
    "''notes'' \<notin> set (InstMRel Datafile)"
    by code_simp+
  have 2: "entity2dict ex_env () (Entity Datafile [(''name'', PStr ''a.dat'')] [] [])
           = Inr [(''name'', PStr ''a.dat'')]"
    by code_simp
  show ?thesis
    using entity2dict_ignores_undeclared [OF 1, of ex_env "()" "PInt 1" "[(''name'', PStr ''a.dat'')]"
        ex_parent "[]" "[ex_parent]" "[]"] 1 2
    by simp
qed








lemma getobjs_names_declared:
  "\<forall>n \<in> set names. map_of chunk' n = map_of chunk n
   \<Longrightarrow> getobjs_names c itm consume chunk' names oi = getobjs_names c itm consume chunk names oi"
  by (induction names arbitrary: oi) (auto split: option.splits prod.splits sum.splits)

lemma getobjs_names_empty: "getobjs_names c itm consume [] names oi = ([], Inr oi)"
  by (induction names) auto

text \<open>
  Claim C4, as amended: for a tag that is not in the list of entity types, \<open>add\<close> raises
  the \<open>ValueError\<close> of an unknown entity type and leaves the writer as it was.  The
  reader iterates over the list of entity types and never looks at another tag of a
  chunk: the records under such a tag are skipped, and no exception is raised.
\<close>

theorem unknown_tag:
  assumes "tag \<notin> set entitytypes"
  shows "add env w tag key obj ki = (w, Some (ValueError (''Unknown entity type '' @ quoted tag)))
       \<and> getobjs c itm consume (AList.update tag recs chunk) oi = getobjs c itm consume chunk oi
       \<and> getobjs c itm consume [(tag, recs)] oi = ([], Inr oi)"
proof -
  have 1: "getobjs_names c itm consume (AList.update tag recs chunk) entitytypes oi
           = getobjs_names c itm consume chunk entitytypes oi" for chunk
    using assms by (intro getobjs_names_declared) (auto simp: update_conv')
  have "getobjs c itm consume [(tag, recs)] oi = getobjs c itm consume (AList.update tag recs []) oi"
    by simp
  also have "\<dots> = ([], Inr oi)"
    unfolding getobjs_def getobjs_tagged_def 1 by (simp add: getobjs_names_empty)
  finally show ?thesis
    using assms 1 by (simp add: add_def getobjs_def getobjs_tagged_def)
qed

text \<open>
  Against claim C4 as stated: the reader yields nothing for a chunk whose only tag is
  unknown, and it ends without an exception.
\<close>

theorem unknown_tag_counterexample:
  "''bogus'' \<notin> set entitytypes
   \<and> getobjs ex_client ex_insttypemap (\<lambda>k e oi. oi)
        [(''bogus'', [(''k'', [(''name'', PStr ''x'')])])] () = ([], Inr ())"
  by code_simp

lemma getobjs_items_tags:
  "getobjs_items c itm consume name recs oi = (ys, r)
   \<Longrightarrow> \<forall>y \<in> set ys. fst y = name \<and> fst (snd y) \<in> fst ` set recs"
proof (induction recs arbitrary: oi ys r)
  case Nil
  then show ?case by simp
next
  case (Cons kd recs)
  obtain key d where kd: "kd = (key, d)" by (cases kd)
  show ?case
  proof (cases "dict2entity c itm d name oi")
    case (Inl e)
    with Cons.prems kd show ?thesis by simp
  next
    case (Inr obj)
    obtain zs r' where z: "getobjs_items c itm consume name recs (consume key obj oi) = (zs, r')"
      by (cases "getobjs_items c itm consume name recs (consume key obj oi)")
    with Cons.prems kd Inr have "ys = (name, key, obj) # zs" by simp
    with Cons.IH[OF z] kd show ?thesis by auto
  qed
qed

lemma sorted_map_Suc: "sorted (map Suc xs) = sorted xs"
  by (induction xs) auto

lemma sorted_map_zero: "sorted (map (\<lambda>y. 0::nat) ys)"
  by (induction ys) auto

lemma getobjs_names_sorted:
  "distinct names \<Longrightarrow> getobjs_names c itm consume chunk names oi = (ys, r)
   \<Longrightarrow> sorted (map (\<lambda>y. index_of names (fst y)) ys)
       \<and> (\<forall>y \<in> set ys. fst y \<in> set names
             \<and> (\<exists>recs. map_of chunk (fst y) = Some recs \<and> fst (snd y) \<in> fst ` set recs))"
proof (induction names arbitrary: oi ys r)
  case Nil
  then show ?case by simp
next
  case (Cons name names)
  have d: "distinct names" "name \<notin> set names" using Cons.prems(1) by auto
  have shift: "index_of (name # names) t = Suc (index_of names t)" if "t \<in> set names" for t
    using that d by auto
  show ?case
  proof (cases "map_of chunk name")
    case None
    with Cons.prems have g: "getobjs_names c itm consume chunk names oi = (ys, r)" by simp
    from Cons.IH[OF d(1) g] have s: "sorted (map (\<lambda>y. index_of names (fst y)) ys)"
      and m: "\<forall>y \<in> set ys. fst y \<in> set names
             \<and> (\<exists>recs. map_of chunk (fst y) = Some recs \<and> fst (snd y) \<in> fst ` set recs)"
      by auto
    have "map (\<lambda>y. index_of (name # names) (fst y)) ys = map (\<lambda>y. Suc (index_of names (fst y))) ys"
      using m shift by (intro map_cong) auto
    also have "\<dots> = map Suc (map (\<lambda>y. index_of names (fst y)) ys)" by simp
    finally have "sorted (map (\<lambda>y. index_of (name # names) (fst y)) ys)"
      using s by (simp only: sorted_map_Suc)
    with m show ?thesis by auto
  next
    case (Some recs)
    obtain ys1 r1 where i: "getobjs_items c itm consume name recs oi = (ys1, r1)"
      by (cases "getobjs_items c itm consume name recs oi")
    note t1 = getobjs_items_tags[OF i]
    show ?thesis
    proof (cases r1)
      case (Inl e)
      with Cons.prems Some i have "ys = ys1" by simp
      with t1 Some have "map (\<lambda>y. index_of (name # names) (fst y)) ys = map (\<lambda>y. 0) ys"
        by (intro map_cong) auto
      then have "sorted (map (\<lambda>y. index_of (name # names) (fst y)) ys)"
        by (simp only: sorted_map_zero)
      with t1 Some \<open>ys = ys1\<close> show ?thesis by auto
    next
      case (Inr oi')
      obtain zs r' where g: "getobjs_names c itm consume chunk names oi' = (zs, r')"
        by (cases "getobjs_names c itm consume chunk names oi'")
      with Cons.prems Some i Inr have ys: "ys = ys1 @ zs" by simp
      from Cons.IH[OF d(1) g] have s: "sorted (map (\<lambda>y. index_of names (fst y)) zs)"
        and m: "\<forall>y \<in> set zs. fst y \<in> set names
             \<and> (\<exists>recs. map_of chunk (fst y) = Some recs \<and> fst (snd y) \<in> fst ` set recs)"
        by auto
      have 1: "map (\<lambda>y. index_of (name # names) (fst y)) ys1 = map (\<lambda>y. 0) ys1"
        using t1 by (intro map_cong) auto
      have "map (\<lambda>y. index_of (name # names) (fst y)) zs = map (\<lambda>y. Suc (index_of names (fst y))) zs"
        using m shift by (intro map_cong) auto
      then have 2: "map (\<lambda>y. index_of (name # names) (fst y)) zs
                    = map Suc (map (\<lambda>y. index_of names (fst y)) zs)" by simp
      have "sorted (map (\<lambda>y. index_of (name # names) (fst y)) ys1)"
        unfolding 1 by (rule sorted_map_zero)
      moreover have "sorted (map (\<lambda>y. index_of (name # names) (fst y)) zs)"
        unfolding 2 using s by (simp only: sorted_map_Suc)
      moreover have "\<forall>a \<in> set (map (\<lambda>y. index_of (name # names) (fst y)) ys1).
                       \<forall>b \<in> set (map (\<lambda>y. index_of (name # names) (fst y)) zs). a \<le> b"
        unfolding 1 by auto
      ultimately have "sorted (map (\<lambda>y. index_of (name # names) (fst y)) ys)"
        unfolding ys map_append sorted_append by blast
      with t1 m Some ys show ?thesis by auto
    qed
  qed
qed

theorem unknown_tag_witness:
  "''bogus'' \<notin> set entitytypes
   \<and> add ex_env (init_writer []) ''bogus'' ''k'' (ex_file ''a.dat'' 10) ()
       = (init_writer [], Some (ValueError (''Unknown entity type '' @ quoted ''bogus'')))
   \<and> getobjs ex_client ex_insttypemap (\<lambda>k e n. Suc n)
        (AList.update ''bogus'' [(''k'', [])] ex_chunk) (0::nat)
       = getobjs ex_client ex_insttypemap (\<lambda>k e n. Suc n) ex_chunk 0"
proof -
  have 1: "''bogus'' \<notin> set entitytypes"
    by code_simp
  show ?thesis
    using unknown_tag [OF 1, of ex_env "init_writer []" "''k''" "ex_file ''a.dat'' 10" "()"
        ex_client ex_insttypemap "\<lambda>k e n. Suc n" "[(''k'', [])]" ex_chunk "0::nat"] 1
    by simp
qed


text \<open>
  Claim C3: in the items that \<open>getobjs\<close> yields for a chunk, a record of a type that
  comes earlier in the list of entity types comes before every record of a type that
  comes later: a facility before an instrument, an instrument before an investigation,
  an investigation before a dataset, a dataset before a datafile.  Each item is tagged
  with a type of the list, and its key is a key of the chunk under that type.
\<close>

theorem getobjs_order:
  assumes "getobjs_tagged c itm consume chunk oi = (ys, r)"
    and "i < length ys" and "j < length ys"
    and "index_of entitytypes (fst (ys ! i)) < index_of entitytypes (fst (ys ! j))"
  shows "i < j
       \<and> fst (ys ! i) \<in> set entitytypes
       \<and> (\<exists>recs. map_of chunk (fst (ys ! i)) = Some recs \<and> fst (snd (ys ! i)) \<in> fst ` set recs)
       \<and> fst (getobjs c itm consume chunk oi) = map snd ys
       \<and> index_of entitytypes ''facility'' < index_of entitytypes ''instrument''
       \<and> index_of entitytypes ''instrument'' < index_of entitytypes ''investigation''
       \<and> index_of entitytypes ''investigation'' < index_of entitytypes ''dataset''
       \<and> index_of entitytypes ''dataset'' < index_of entitytypes ''datafile''"
proof -
  have d: "distinct entitytypes"
    by (simp add: entitytypes_def)
  from assms(1) have g: "getobjs_names c itm consume chunk entitytypes oi = (ys, r)"
    by (simp add: getobjs_tagged_def)
  note s = getobjs_names_sorted [OF d g]
  from s have srt: "sorted (map (\<lambda>y. index_of entitytypes (fst y)) ys)" by blast
  have "i < j"
  proof (rule ccontr)
    assume "\<not> i < j"
    then have "j \<le> i" by simp
    with srt assms(2) have "map (\<lambda>y. index_of entitytypes (fst y)) ys ! j
                            \<le> map (\<lambda>y. index_of entitytypes (fst y)) ys ! i"
      by (intro sorted_nth_mono) simp_all
    with assms(2,3,4) show False by simp
  qed
  moreover from s assms(2) have "fst (ys ! i) \<in> set entitytypes
       \<and> (\<exists>recs. map_of chunk (fst (ys ! i)) = Some recs \<and> fst (snd (ys ! i)) \<in> fst ` set recs)"
    using nth_mem by blast
  moreover have "fst (getobjs c itm consume chunk oi) = map snd ys"
    using assms(1) by (simp add: getobjs_def)
  moreover have "index_of entitytypes ''facility'' < index_of entitytypes ''instrument''"
    "index_of entitytypes ''instrument'' < index_of entitytypes ''investigation''"
    "index_of entitytypes ''investigation'' < index_of entitytypes ''dataset''"
    "index_of entitytypes ''dataset'' < index_of entitytypes ''datafile''"
    by (simp_all add: entitytypes_def)
  ultimately show ?thesis by blast
qed

theorem getobjs_order_witness:
  "map fst ex_chunk = [''datafile'', ''dataset'']
   \<and> getobjs_tagged ex_client ex_insttypemap (\<lambda>k e n. Suc n) ex_chunk (0::nat)
       = ([(''dataset'', ''Dataset_name-run1'', ex_parent),
           (''datafile'', ''Datafile_name-a.dat'', ex_decoded_file)], Inr 2)
   \<and> index_of entitytypes ''dataset'' < index_of entitytypes ''datafile''
   \<and> (0::nat) < 1"
proof -
  have g: "getobjs_tagged ex_client ex_insttypemap (\<lambda>k e n. Suc n) ex_chunk (0::nat)
       = ([(''dataset'', ''Dataset_name-run1'', ex_parent),
           (''datafile'', ''Datafile_name-a.dat'', ex_decoded_file)], Inr 2)"
    by code_simp
  have m: "map fst ex_chunk = [''datafile'', ''dataset'']"
    by code_simp
  have i: "index_of entitytypes ''dataset'' < index_of entitytypes ''datafile''"
    by code_simp
  show ?thesis
    using getobjs_order [OF g, of 0 1] g m i by simp
qed








































end
